theory Spec2Isabelle
  imports Complex_Main "HOL-Library.Word"
begin

section \<open>JavaScript strings and numbers\<close>

text \<open>
  The editor component (\<^verbatim>\<open>src/unnamed/part_001\<close>) works on JavaScript strings and
  numbers. A string is modelled as a list of code units, restricted to the code units
  below 256 (\<^typ>\<open>char\<close>); on these \<^verbatim>\<open>toLowerCase\<close> keeps the length. A number
  is modelled as a rational: the offsets the component computes are integers or
  half-integers (\<^verbatim>\<open>windowSize / 2\<close>, \<^verbatim>\<open>searchText.length * 1.5\<close>), which
  doubles represent exactly.
\<close>

definition isWhiteSpace :: "char \<Rightarrow> bool" where
  "isWhiteSpace c =
     (let n = (of_char c :: nat) in (9 \<le> n \<and> n \<le> 13) \<or> n = 32 \<or> n = 160)"

definition toLowerCaseChar :: "char \<Rightarrow> char" where
  "toLowerCaseChar c =
     (let n = (of_char c :: nat)
      in if (65 \<le> n \<and> n \<le> 90) \<or> (192 \<le> n \<and> n \<le> 222 \<and> n \<noteq> 215)
         then char_of (n + 32) else c)"

definition toLowerCase :: "string \<Rightarrow> string" where
  "toLowerCase s = map toLowerCaseChar s"

text \<open>
  \<^verbatim>\<open>s.substring(a, b)\<close>: each argument is truncated to an integer and clamped to
  \<open>[0, length s]\<close>, and the two are swapped when the first is the larger.
\<close>

definition toIndex :: "nat \<Rightarrow> rat \<Rightarrow> nat" where
  "toIndex len x = min (nat \<lfloor>x\<rfloor>) len"

definition substring :: "string \<Rightarrow> rat \<Rightarrow> rat \<Rightarrow> string" where
  "substring s a b =
     (let ia = toIndex (length s) a; ib = toIndex (length s) b;
          lo = min ia ib; hi = max ia ib
      in take (hi - lo) (drop lo s))"

text \<open>
  \<^verbatim>\<open>s.indexOf(t, fromIndex)\<close>: the first index at or after the clamped
  \<open>fromIndex\<close> where \<open>t\<close> occurs, or \<open>-1\<close>. The empty string occurs at every index
  up to \<open>length s\<close>.
\<close>

definition indexOf :: "string \<Rightarrow> string \<Rightarrow> int \<Rightarrow> int" where
  "indexOf s t fromIndex =
     (let len = length s; k = min (nat fromIndex) len
      in case find (\<lambda>i. take (length t) (drop i s) = t) [k ..< Suc len] of
           None \<Rightarrow> - 1
         | Some i \<Rightarrow> int i)"

definition str_includes :: "string \<Rightarrow> string \<Rightarrow> bool" where
  "str_includes s t = (indexOf s t 0 \<noteq> - 1)"

definition trim :: "string \<Rightarrow> string" where
  "trim s = rev (dropWhile isWhiteSpace (rev (dropWhile isWhiteSpace s)))"

text \<open>
  \<^verbatim>\<open>s.split(/\s+/)\<close>: the pieces between maximal runs of white space; a string that
  starts or ends with white space yields an empty first or last piece.
\<close>

primrec split_ws :: "string \<Rightarrow> string list" where
  "split_ws [] = [[]]"
| "split_ws (c # cs) =
     (if isWhiteSpace c
      then (if cs \<noteq> [] \<and> isWhiteSpace (hd cs) then split_ws cs else [] # split_ws cs)
      else (case split_ws cs of
              [] \<Rightarrow> [[c]]
            | w # ws \<Rightarrow> (c # w) # ws))"

text \<open>\<^verbatim>\<open>words.join(' ')\<close>.\<close>

fun join :: "string list \<Rightarrow> string" where
  "join [] = []"
| "join [w] = w"
| "join (w # ws) = w @ '' '' @ join ws"

text \<open>
  An optional string argument is \<open>None\<close> when it is \<^verbatim>\<open>undefined\<close>; it is truthy
  when it is present and not empty.
\<close>

definition truthy :: "string option \<Rightarrow> bool" where
  "truthy s = (case s of None \<Rightarrow> False | Some t \<Rightarrow> t \<noteq> [])"

section \<open>Data model\<close>

text \<open>
  The types of the source, with its field names. Where a name of the source is a keyword
  or a constant here, it is changed: \<open>end'\<close> for \<^verbatim>\<open>end\<close>, \<open>sid\<close> for
  \<^verbatim>\<open>id\<close>, \<open>stype\<close> for \<^verbatim>\<open>type\<close>, \<open>text_value\<close> for the state
  variable \<^verbatim>\<open>value\<close>, \<open>str_includes\<close> for \<^verbatim>\<open>includes\<close>, and
  \<open>fconfidence\<close> for the \<^verbatim>\<open>confidence\<close> of a fuzzy match.
\<close>

record span =
  start :: rat
  end' :: rat

datatype suggestion_type = grammar | tone | persuasion

record Suggestion =
  sid :: string
  stype :: suggestion_type
  position :: span
  original :: string
  suggested :: string
  contextBefore :: "string option"
  contextAfter :: "string option"
  explanation :: string
  confidence :: rat

text \<open>The results of the three searches: a span with one more field.\<close>

record located = span +
  found :: bool

record scored = span +
  score :: int

record fuzzy = span +
  fconfidence :: rat

section \<open>PositionLocator\<close>

subsection \<open>\<^verbatim>\<open>findWithContext\<close>\<close>

text \<open>
  The two context checks of the loop body; the state is the pair
  \<open>(score, isValidMatch)\<close>.
\<close>

definition checkBefore :: "string \<Rightarrow> int \<Rightarrow> string option \<Rightarrow> int \<times> bool \<Rightarrow> int \<times> bool" where
  "checkBefore text searchIndex ctxBefore st =
     (case ctxBefore of
        None \<Rightarrow> st
      | Some cb \<Rightarrow>
          if cb \<noteq> [] \<and> trim cb \<noteq> [] then
            (let beforeText =
                   substring text (max 0 (of_int searchIndex - of_nat (length cb) - 10))
                     (of_int searchIndex)
             in if \<not> str_includes beforeText cb then (fst st, False) else (fst st + 2, snd st))
          else st)"

definition checkAfter :: "string \<Rightarrow> string \<Rightarrow> int \<Rightarrow> string option \<Rightarrow> int \<times> bool \<Rightarrow> int \<times> bool" where
  "checkAfter text searchText searchIndex ctxAfter st =
     (case ctxAfter of
        None \<Rightarrow> st
      | Some ca \<Rightarrow>
          if ca \<noteq> [] \<and> trim ca \<noteq> [] then
            (let afterStart = of_int searchIndex + of_nat (length searchText);
                 afterText =
                   substring text afterStart
                     (min (of_nat (length text)) (afterStart + of_nat (length ca) + 10))
             in if \<not> str_includes afterText ca then (fst st, False) else (fst st + 2, snd st))
          else st)"

definition contextMatch :: "string \<Rightarrow> string \<Rightarrow> string option \<Rightarrow> string option \<Rightarrow> int \<Rightarrow> scored list" where
  "contextMatch text searchText ctxBefore ctxAfter searchIndex =
     (let st = checkAfter text searchText searchIndex ctxAfter
                 (checkBefore text searchIndex ctxBefore (1, True))
      in if snd st
         then [\<lparr>start = of_int searchIndex,
                 end' = of_int searchIndex + of_nat (length searchText),
                 score = fst st\<rparr>]
         else [])"

text \<open>
  The \<^verbatim>\<open>while (searchIndex !== -1)\<close> loop. For an empty \<open>searchText\<close>,
  \<^verbatim>\<open>indexOf\<close> never returns \<open>-1\<close> and the loop does not end: the model then
  has no result.
\<close>

partial_function (option) findWithContext_loop ::
  "string \<Rightarrow> string \<Rightarrow> string option \<Rightarrow> string option \<Rightarrow> int \<Rightarrow> scored list \<Rightarrow> scored list option" where
  "findWithContext_loop text searchText ctxBefore ctxAfter searchIndex matches =
     (if searchIndex = - 1 then Some matches
      else findWithContext_loop text searchText ctxBefore ctxAfter
             (indexOf text searchText (searchIndex + 1))
             (matches @ contextMatch text searchText ctxBefore ctxAfter searchIndex))"

declare findWithContext_loop.simps [code]

text \<open>\<^verbatim>\<open>matches.sort((a, b) => b.score - a.score)\<close>: stable, highest score first.\<close>

definition findWithContext :: "string \<Rightarrow> string \<Rightarrow> string option \<Rightarrow> string option \<Rightarrow> scored list option" where
  "findWithContext text searchText ctxBefore ctxAfter =
     map_option (sort_key (\<lambda>m. - score m))
       (findWithContext_loop text searchText ctxBefore ctxAfter (indexOf text searchText 0) [])"

subsection \<open>\<^verbatim>\<open>findFuzzyMatches\<close>\<close>

definition fuzzySearchWords :: "string \<Rightarrow> string list" where
  "fuzzySearchWords searchText = filter (\<lambda>w. length w > 2) (split_ws (toLowerCase searchText))"

definition fuzzyWindowStart :: "string \<Rightarrow> rat \<Rightarrow> rat" where
  "fuzzyWindowStart text hintPos =
     (let windowSize = min 500 (of_nat (length text)) in max 0 (hintPos - windowSize / 2))"

definition fuzzyWindowEnd :: "string \<Rightarrow> rat \<Rightarrow> rat" where
  "fuzzyWindowEnd text hintPos =
     (let windowSize = min 500 (of_nat (length text))
      in min (of_nat (length text)) (hintPos + windowSize / 2))"

definition fuzzySearchWindow :: "string \<Rightarrow> rat \<Rightarrow> string" where
  "fuzzySearchWindow text hintPos =
     toLowerCase (substring text (fuzzyWindowStart text hintPos) (fuzzyWindowEnd text hintPos))"

text \<open>The slice of words starting at word \<open>i\<close> and the fraction of search words in it.\<close>

definition windowSlice :: "string list \<Rightarrow> string list \<Rightarrow> nat \<Rightarrow> string" where
  "windowSlice searchWords words i = join (take (length searchWords * 2) (drop i words))"

definition sliceConfidence :: "string list \<Rightarrow> string list \<Rightarrow> nat \<Rightarrow> rat" where
  "sliceConfidence searchWords words i =
     of_nat (length (filter (\<lambda>searchWord. str_includes (windowSlice searchWords words i) searchWord)
                       searchWords))
     / of_nat (length searchWords)"

text \<open>The indices the \<^verbatim>\<open>for\<close> loop visits: \<open>i < words.length - searchWords.length + 1\<close>.\<close>

definition fuzzyIndices :: "string list \<Rightarrow> string list \<Rightarrow> nat list" where
  "fuzzyIndices searchWords words = [0 ..< nat (int (length words) - int (length searchWords) + 1)]"

definition fuzzyCandidate :: "string \<Rightarrow> string \<Rightarrow> rat \<Rightarrow> string list \<Rightarrow> string list \<Rightarrow> nat \<Rightarrow> fuzzy list" where
  "fuzzyCandidate text searchText hintPos searchWords words i =
     (let conf = sliceConfidence searchWords words i
      in if conf \<ge> 6 / 10 then
           (let sliceStart = indexOf (fuzzySearchWindow text hintPos) (windowSlice searchWords words i) 0
            in if sliceStart \<noteq> - 1 then
                 (let actualStart = fuzzyWindowStart text hintPos + of_int sliceStart;
                      actualEnd = min (of_nat (length text))
                                    (actualStart + of_nat (length searchText) * (3 / 2))
                  in [\<lparr>start = actualStart, end' = actualEnd, fconfidence = conf\<rparr>])
               else [])
         else [])"

text \<open>
  The sort ranks by \<open>confidence - |start - hintPos| / 1000\<close>, highest first, and the
  first three are kept.
\<close>

definition fuzzyScore :: "rat \<Rightarrow> fuzzy \<Rightarrow> rat" where
  "fuzzyScore hintPos m = fconfidence m - \<bar>start m - hintPos\<bar> / 1000"

definition findFuzzyMatches :: "string \<Rightarrow> string \<Rightarrow> rat \<Rightarrow> fuzzy list" where
  "findFuzzyMatches text searchText hintPos =
     (let searchWords = fuzzySearchWords searchText
      in if length searchWords = 0 then []
         else (let words = split_ws (fuzzySearchWindow text hintPos);
                   matches = concat (map (fuzzyCandidate text searchText hintPos searchWords words)
                                      (fuzzyIndices searchWords words))
               in take 3 (sort_key (\<lambda>m. - fuzzyScore hintPos m) matches)))"

subsection \<open>\<^verbatim>\<open>findExactTextPosition\<close>\<close>

text \<open>The loop that collects every occurrence of \<open>searchText\<close>; as above it has no
  result for the empty \<open>searchText\<close>.\<close>

partial_function (option) foundPositions_loop ::
  "string \<Rightarrow> string \<Rightarrow> int \<Rightarrow> span list \<Rightarrow> span list option" where
  "foundPositions_loop text searchText searchIndex foundPositions =
     (if searchIndex = - 1 then Some foundPositions
      else foundPositions_loop text searchText (indexOf text searchText (searchIndex + 1))
             (foundPositions @
                [\<lparr>start = of_int searchIndex,
                  end' = of_int searchIndex + of_nat (length searchText)\<rparr>]))"

declare foundPositions_loop.simps [code]

text \<open>\<^verbatim>\<open>foundPositions.reduce(...)\<close> without an initial value: the first position
  is the first candidate, and a later one replaces it only when strictly closer.\<close>

definition closestMatch :: "rat \<Rightarrow> span list \<Rightarrow> span" where
  "closestMatch startPos foundPositions =
     foldl (\<lambda>closest current.
              if \<bar>start current - startPos\<bar> < \<bar>start closest - startPos\<bar> then current else closest)
       (hd foundPositions) (tl foundPositions)"

definition hintVerified :: "string \<Rightarrow> string \<Rightarrow> rat \<Rightarrow> rat \<Rightarrow> bool" where
  "hintVerified text searchText startPos endPos =
     (startPos \<ge> 0 \<and> endPos \<le> of_nat (length text) \<and> startPos < endPos
      \<and> substring text startPos endPos = searchText)"

definition findExactTextPosition ::
  "string \<Rightarrow> string \<Rightarrow> rat \<Rightarrow> rat \<Rightarrow> string option \<Rightarrow> string option \<Rightarrow> located option" where
  "findExactTextPosition text searchText startPos endPos ctxBefore ctxAfter =
     (if hintVerified text searchText startPos endPos
      then Some \<lparr>start = startPos, end' = endPos, found = True\<rparr>
      else
        (case (if truthy ctxBefore \<or> truthy ctxAfter
               then findWithContext text searchText ctxBefore ctxAfter
               else Some []) of
           None \<Rightarrow> None
         | Some (m # ms) \<Rightarrow> Some \<lparr>start = start m, end' = end' m, found = True\<rparr>
         | Some [] \<Rightarrow>
             (case foundPositions_loop text searchText (indexOf text searchText 0) [] of
                None \<Rightarrow> None
              | Some foundPositions \<Rightarrow>
                  if length foundPositions = 1 then
                    Some \<lparr>start = start (hd foundPositions), end' = end' (hd foundPositions),
                          found = True\<rparr>
                  else if length foundPositions > 1 then
                    (let c = closestMatch startPos foundPositions
                     in Some \<lparr>start = start c, end' = end' c, found = True\<rparr>)
                  else
                    (case findFuzzyMatches text searchText startPos of
                       f # fs \<Rightarrow> Some \<lparr>start = start f, end' = end' f, found = True\<rparr>
                     | [] \<Rightarrow> Some \<lparr>start = startPos, end' = endPos, found = False\<rparr>))))"

section \<open>Editor state\<close>

text \<open>
  The React state the functions below read and set: the text buffer, the previous text,
  the live suggestions, the selected suggestion, the analysis window and flag, whether
  the editor element is mounted, and the titles of the toasts shown to the user so far.
  Each function takes the state and returns the new one; the result is \<open>None\<close> when
  a call to \<open>findExactTextPosition\<close> does not return.
\<close>

record editor =
  text_value :: string
  previousText :: string
  suggestions :: "Suggestion list"
  selectedSuggestion :: "Suggestion option"
  analysisWindow :: "span option"
  analyzing :: bool
  editorRef :: bool
  toasts :: "string list"

section \<open>TextDiffer\<close>

text \<open>
  The scan of \<^verbatim>\<open>handleContentEditable\<close> for the first difference: the value of
  \<open>changeStart\<close> after the \<^verbatim>\<open>for\<close> loop, which is \<open>0\<close> when the loop never
  assigns it.
\<close>

function changeStart_loop :: "string \<Rightarrow> string \<Rightarrow> nat \<Rightarrow> nat \<Rightarrow> nat" where
  "changeStart_loop oldValue newValue minLength i =
     (if i < minLength
      then (if oldValue ! i \<noteq> newValue ! i then i
            else changeStart_loop oldValue newValue minLength (i + 1))
      else 0)"
  by pat_completeness auto
termination
  by (relation "measure (\<lambda>(oldValue, newValue, minLength, i). minLength - i)") auto

definition computeChangeStart :: "string \<Rightarrow> string \<Rightarrow> nat" where
  "computeChangeStart oldValue newValue =
     (let minLength = min (length oldValue) (length newValue);
          changeStart = changeStart_loop oldValue newValue minLength 0
      in if changeStart = 0 \<and> oldValue \<noteq> newValue then minLength else changeStart)"

definition lengthDifference :: "string \<Rightarrow> string \<Rightarrow> int" where
  "lengthDifference oldText newText = int (length newText) - int (length oldText)"

section \<open>SuggestionRepositioner\<close>

text \<open>The first \<^verbatim>\<open>map\<close> of \<^verbatim>\<open>updateSuggestionPositions\<close>: shift, drop (\<open>None\<close>) or keep.\<close>

definition shiftSuggestion :: "rat \<Rightarrow> int \<Rightarrow> Suggestion \<Rightarrow> Suggestion option" where
  "shiftSuggestion changeStart lengthDiff suggestion =
     (if start (position suggestion) \<ge> changeStart then
        Some (suggestion\<lparr>position :=
                \<lparr>start = start (position suggestion) + of_int lengthDiff,
                 end' = end' (position suggestion) + of_int lengthDiff\<rparr>\<rparr>)
      else if end' (position suggestion) > changeStart then None
      else Some suggestion)"

text \<open>The second \<^verbatim>\<open>map\<close>: re-locate the suggestion in the new text. The outer
  \<open>option\<close> is \<open>None\<close> when the locator does not return, the inner one when the
  suggestion is removed.\<close>

definition reverifySuggestion :: "string \<Rightarrow> Suggestion \<Rightarrow> Suggestion option option" where
  "reverifySuggestion newText suggestion =
     (case findExactTextPosition newText (original suggestion)
             (start (position suggestion)) (end' (position suggestion))
             (contextBefore suggestion) (contextAfter suggestion) of
        None \<Rightarrow> None
      | Some exactPosition \<Rightarrow>
          Some (if found exactPosition then
                  (if start exactPosition \<noteq> start (position suggestion)
                      \<or> end' exactPosition \<noteq> end' (position suggestion)
                   then Some (suggestion\<lparr>position :=
                                \<lparr>start = start exactPosition, end' = end' exactPosition\<rparr>\<rparr>)
                   else Some suggestion)
                else None))"

definition updatedSuggestions :: "Suggestion list \<Rightarrow> string \<Rightarrow> string \<Rightarrow> rat \<Rightarrow> Suggestion list option" where
  "updatedSuggestions sugs oldText newText changeStart =
     map_option (List.map_filter id)
       (those (map (reverifySuggestion newText)
                 (List.map_filter (shiftSuggestion changeStart (lengthDifference oldText newText))
                    sugs)))"

definition updateSuggestionPositions :: "editor \<Rightarrow> string \<Rightarrow> string \<Rightarrow> rat \<Rightarrow> editor option" where
  "updateSuggestionPositions st oldText newText changeStart =
     (if length (suggestions st) = 0 then Some st
      else
        (case updatedSuggestions (suggestions st) oldText newText changeStart of
           None \<Rightarrow> None
         | Some updated \<Rightarrow>
             Some (st\<lparr>suggestions := updated,
                      selectedSuggestion :=
                        (case selectedSuggestion st of
                           None \<Rightarrow> None
                         | Some sel \<Rightarrow> find (\<lambda>s. sid s = sid sel) updated)\<rparr>)))"

text \<open>\<^verbatim>\<open>cleanupInvalidSuggestions\<close>: keeps a suggestion only when the locator finds
  it and the text at the found span equals \<open>original\<close>.\<close>

definition cleanupKeeps :: "string \<Rightarrow> Suggestion \<Rightarrow> bool option" where
  "cleanupKeeps currentText suggestion =
     (case findExactTextPosition currentText (original suggestion)
             (start (position suggestion)) (end' (position suggestion))
             (contextBefore suggestion) (contextAfter suggestion) of
        None \<Rightarrow> None
      | Some exactPosition \<Rightarrow>
          Some (if \<not> found exactPosition then False
                else if substring currentText (start exactPosition) (end' exactPosition)
                          \<noteq> original suggestion then False
                else True))"

definition cleanupInvalidSuggestions :: "editor \<Rightarrow> string \<Rightarrow> editor option" where
  "cleanupInvalidSuggestions st currentText =
     (if length (suggestions st) = 0 then Some st
      else
        (case those (map (cleanupKeeps currentText) (suggestions st)) of
           None \<Rightarrow> None
         | Some keeps \<Rightarrow>
             (let validSuggestions = map fst (filter snd (zip (suggestions st) keeps));
                  removedCount = length (suggestions st) - length validSuggestions
              in if removedCount > 0 then
                   Some (st\<lparr>suggestions := validSuggestions,
                            selectedSuggestion :=
                              (case selectedSuggestion st of
                                 None \<Rightarrow> None
                               | Some sel \<Rightarrow>
                                   if \<not> list_ex (\<lambda>s. sid s = sid sel) validSuggestions
                                   then None else Some sel)\<rparr>)
                 else Some st)))"



section \<open>SuggestionMerger\<close>

datatype suggestion_source = openai | typo | other

definition getSuggestionSource :: "Suggestion \<Rightarrow> suggestion_source" where
  "getSuggestionSource suggestion =
     (if take 7 (sid suggestion) = ''openai-'' then openai
      else if take 5 (sid suggestion) = ''typo-'' then typo
      else other)"

definition isStillValid :: "string \<Rightarrow> Suggestion \<Rightarrow> bool" where
  "isStillValid currentText suggestion =
     (substring currentText (start (position suggestion)) (end' (position suggestion))
        = original suggestion)"

definition overlaps :: "Suggestion \<Rightarrow> Suggestion \<Rightarrow> bool" where
  "overlaps newSuggestion existingSuggestion =
     (start (position newSuggestion) < end' (position existingSuggestion)
      \<and> end' (position newSuggestion) > start (position existingSuggestion))"

definition shouldReplace :: "suggestion_source \<Rightarrow> suggestion_source \<Rightarrow> bool" where
  "shouldReplace newSource existingSource =
     (if newSource = openai \<and> existingSource = typo then True
      else if newSource = openai \<and> existingSource = openai then True
      else if newSource = typo \<and> existingSource = openai then False
      else if newSource = typo \<and> existingSource = typo then True
      else True)"

text \<open>The indices pushed by the inner \<^verbatim>\<open>forEach\<close>, in increasing order.\<close>

definition overlappingIndices :: "Suggestion \<Rightarrow> Suggestion list \<Rightarrow> nat list" where
  "overlappingIndices newSuggestion mergedSuggestions =
     filter (\<lambda>index. overlaps newSuggestion (mergedSuggestions ! index)
                      \<and> shouldReplace (getSuggestionSource newSuggestion)
                           (getSuggestionSource (mergedSuggestions ! index)))
       [0 ..< length mergedSuggestions]"

text \<open>\<^verbatim>\<open>indices.forEach(index => merged.splice(index, 1))\<close>.\<close>

fun spliceEach :: "nat list \<Rightarrow> 'a list \<Rightarrow> 'a list" where
  "spliceEach [] merged = merged"
| "spliceEach (index # indices) merged =
     spliceEach indices (take index merged @ drop (Suc index) merged)"

definition blockedBy :: "Suggestion \<Rightarrow> Suggestion \<Rightarrow> bool" where
  "blockedBy newSuggestion existing =
     (if overlaps newSuggestion existing
      then getSuggestionSource newSuggestion = typo \<and> getSuggestionSource existing = openai
      else False)"

definition mergeOne :: "Suggestion list \<Rightarrow> Suggestion \<Rightarrow> Suggestion list" where
  "mergeOne mergedSuggestions newSuggestion =
     (let indices = overlappingIndices newSuggestion mergedSuggestions;
          remaining = spliceEach (rev indices) mergedSuggestions
      in if length indices > 0 \<or> \<not> list_ex (blockedBy newSuggestion) remaining
         then remaining @ [newSuggestion]
         else remaining)"

definition mergeSuggestionsIntelligently ::
  "Suggestion list \<Rightarrow> Suggestion list \<Rightarrow> string \<Rightarrow> Suggestion list" where
  "mergeSuggestionsIntelligently existingSuggestions newSuggestions currentText =
     sort_key (\<lambda>s. start (position s))
       (foldl mergeOne (filter (isStillValid currentText) existingSuggestions) newSuggestions)"

section \<open>Sections and change detection\<close>

record TextSection =
  hash :: string
  content :: string
  startIndex :: nat
  endIndex :: nat

text \<open>
  \<^verbatim>\<open>simpleHash\<close>: \<open>hash = ((hash << 5) - hash) + char\<close> followed by the conversion
  to a 32-bit integer is arithmetic in 32-bit words; the result is the absolute value of
  the signed reading, written in base 36.
\<close>

definition hashStep :: "32 word \<Rightarrow> char \<Rightarrow> 32 word" where
  "hashStep h c = (push_bit 5 h - h) + of_nat (of_char c)"

definition digit36 :: "nat \<Rightarrow> char" where
  "digit36 d = ''0123456789abcdefghijklmnopqrstuvwxyz'' ! d"

function toString36 :: "nat \<Rightarrow> string" where
  "toString36 n = (if n < 36 then [digit36 n] else toString36 (n div 36) @ [digit36 (n mod 36)])"
  by pat_completeness auto
termination
  by (relation "measure id") auto

definition simpleHash :: "string \<Rightarrow> string" where
  "simpleHash text =
     (if length text = 0 then ''0''
      else toString36 (nat \<bar>sint (foldl hashStep 0 text)\<bar>))"

definition detectChangedSections :: "TextSection list \<Rightarrow> TextSection list \<Rightarrow> TextSection list" where
  "detectChangedSections currentSections previousSections =
     (let previousHashes = set (map hash previousSections)
      in filter (\<lambda>section. hash section \<notin> previousHashes) currentSections)"

text \<open>
  Every section that \<^verbatim>\<open>splitTextIntoAnalysisSections\<close> pushes is built as
  \<^verbatim>\<open>{hash: simpleHash(x.trim()), content: x, ...}\<close>, for a paragraph, a sentence or
  the whole text \<open>x\<close>.
\<close>

definition hashedSection :: "TextSection \<Rightarrow> bool" where
  "hashedSection section = (hash section = simpleHash (trim (content section)))"

section \<open>Remote analysis\<close>

text \<open>
  What the call to \<^verbatim>\<open>/api/analyze\<close> yields: \<^verbatim>\<open>fetch\<close> rejects, or there is a
  response with its \<^verbatim>\<open>ok\<close> flag and a body that does not parse, carries
  \<^verbatim>\<open>error\<close>, or carries suggestions.
\<close>

datatype response_data = InvalidJson | ErrorData string | SuggestionData "Suggestion list"

datatype remote_outcome = NetworkError | Response bool response_data

definition analysisFailed :: "editor \<Rightarrow> editor" where
  "analysisFailed st =
     st\<lparr>toasts := toasts st @ [''Analysis failed''], analysisWindow := None, analyzing := False\<rparr>"

text \<open>The \<^verbatim>\<open>map\<close> of \<^verbatim>\<open>analyzeTextManual\<close> that corrects the positions the
  analyzer sent.\<close>

definition correctSuggestion :: "string \<Rightarrow> Suggestion \<Rightarrow> Suggestion option option" where
  "correctSuggestion text suggestion =
     (case findExactTextPosition text (original suggestion)
             (start (position suggestion)) (end' (position suggestion))
             (contextBefore suggestion) (contextAfter suggestion) of
        None \<Rightarrow> None
      | Some exactPosition \<Rightarrow>
          Some (if found exactPosition
                then Some (suggestion\<lparr>position :=
                             \<lparr>start = start exactPosition, end' = end' exactPosition\<rparr>\<rparr>)
                else None))"

definition analyzeTextManual :: "editor \<Rightarrow> string \<Rightarrow> remote_outcome \<Rightarrow> editor option" where
  "analyzeTextManual st text outcome =
     (if length text < 20 then Some (st\<lparr>suggestions := [], analysisWindow := None\<rparr>)
      else
        (let st1 = st\<lparr>analysisWindow := Some \<lparr>start = 0, end' = of_nat (length text)\<rparr>,
                      analyzing := True\<rparr>
         in case outcome of
              NetworkError \<Rightarrow> Some (analysisFailed st1)
            | Response ok body \<Rightarrow>
                if \<not> ok then Some (analysisFailed st1)
                else
                  (case body of
                     InvalidJson \<Rightarrow> Some (analysisFailed st1)
                   | ErrorData e \<Rightarrow>
                       if e \<noteq> [] then Some (analysisFailed st1)
                       else Some (st1\<lparr>suggestions :=
                                        mergeSuggestionsIntelligently (suggestions st) [] text,
                                      analyzing := False\<rparr>)
                   | SuggestionData sugs \<Rightarrow>
                       (case those (map (correctSuggestion text) sugs) of
                          None \<Rightarrow> None
                        | Some corrected \<Rightarrow>
                            Some (st1\<lparr>suggestions :=
                                        mergeSuggestionsIntelligently (suggestions st)
                                          (List.map_filter id corrected) text,
                                      analyzing := False\<rparr>)))))"

text \<open>The automatic path: the 2-second timer of \<^verbatim>\<open>handleContentEditable\<close> cleans up
  and calls \<^verbatim>\<open>analyzeOpenAIDelayed\<close>, which calls \<^verbatim>\<open>analyzeTextManual\<close>.\<close>

definition analyzeOpenAIDelayed :: "editor \<Rightarrow> string \<Rightarrow> remote_outcome \<Rightarrow> editor option" where
  "analyzeOpenAIDelayed st text outcome = analyzeTextManual st text outcome"

definition typingTimeoutFired :: "editor \<Rightarrow> string \<Rightarrow> remote_outcome \<Rightarrow> editor option" where
  "typingTimeoutFired st newValue outcome =
     (case cleanupInvalidSuggestions st newValue of
        None \<Rightarrow> None
      | Some st1 \<Rightarrow> analyzeOpenAIDelayed st1 newValue outcome)"

text \<open>The manual path: the button calls \<^verbatim>\<open>analyzeTextManual(value, cursorPosition)\<close>.\<close>

definition analyzeButtonClicked :: "editor \<Rightarrow> remote_outcome \<Rightarrow> editor option" where
  "analyzeButtonClicked st outcome = analyzeTextManual st (text_value st) outcome"

section \<open>EditorSurface: the input handler\<close>


section \<open>Predicates on spans and merge states\<close>

text \<open>
  A suggestion's span is valid against a text when \<open>0 \<le> start < end \<le> length text\<close>
  and the text at the span equals \<open>original\<close>.
\<close>

definition spanValid :: "string \<Rightarrow> Suggestion \<Rightarrow> bool" where
  "spanValid text s =
     (0 \<le> start (position s) \<and> start (position s) < end' (position s)
      \<and> end' (position s) \<le> of_nat (length text)
      \<and> substring text (start (position s)) (end' (position s)) = original s)"

text \<open>
  What the reposition contract promises for one suggestion when \<open>k\<close> characters are
  inserted at offset \<open>p\<close>: shifted by \<open>k\<close> when it starts at or after \<open>p\<close>,
  unchanged when it ends at or before \<open>p\<close>, dropped otherwise.
\<close>

definition insertShift :: "nat \<Rightarrow> nat \<Rightarrow> Suggestion \<Rightarrow> Suggestion option" where
  "insertShift p k s =
     (if start (position s) \<ge> of_nat p then
        Some (s\<lparr>position := \<lparr>start = start (position s) + of_nat k,
                             end' = end' (position s) + of_nat k\<rparr>\<rparr>)
      else if end' (position s) \<le> of_nat p then Some s
      else None)"





section \<open>Example data\<close>

definition sectionA :: TextSection where
  "sectionA = \<lparr>hash = ''6qj3a0'', content = ''Para one.'', startIndex = 0, endIndex = 9\<rparr>"

definition sectionA_prev :: TextSection where
  "sectionA_prev = \<lparr>hash = ''6qj3a0'', content = '' Para one.'', startIndex = 0, endIndex = 10\<rparr>"

definition sectionB :: TextSection where
  "sectionB = \<lparr>hash = ''6qfpfi'', content = ''Para two.'', startIndex = 11, endIndex = 20\<rparr>"

definition editor0 :: editor where
  "editor0 = \<lparr>text_value = ''The quick brown fox jumps.'',
     previousText = ''The quick brown fox jumps.'',
     suggestions = [], selectedSuggestion = None, analysisWindow = None, analyzing = False,
     editorRef = True, toasts = []\<rparr>"

definition mkSuggestion :: "string \<Rightarrow> rat \<Rightarrow> rat \<Rightarrow> string \<Rightarrow> string \<Rightarrow> Suggestion" where
  "mkSuggestion i a b orig repl =
     \<lparr>sid = i, stype = grammar, position = \<lparr>start = a, end' = b\<rparr>, original = orig,
      suggested = repl, contextBefore = None, contextAfter = None,
      explanation = [], confidence = 4 / 5\<rparr>"

definition editorWith :: "string \<Rightarrow> Suggestion list \<Rightarrow> editor" where
  "editorWith text sugs =
     \<lparr>text_value = text, previousText = text, suggestions = sugs, selectedSuggestion = None,
      analysisWindow = None, analyzing = False, editorRef = True, toasts = []\<rparr>"



section \<open>Hint verification\<close>

text \<open>
  C6. When the hint span lies inside the text, is not empty and the text at the hint
  equals \<open>original\<close>, \<open>locate\<close> returns the hint span with \<open>found = true\<close>, whatever
  the context arguments are and wherever else \<open>original\<close> occurs.
\<close>

theorem hint_verification:
  assumes "0 \<le> hintStart" and "hintStart < hintEnd" and "hintEnd \<le> of_nat (length text)"
    and "substring text hintStart hintEnd = orig"
  shows "findExactTextPosition text orig hintStart hintEnd ctxBefore ctxAfter
           = Some \<lparr>start = hintStart, end' = hintEnd, found = True\<rparr>"
  using assms by (simp add: findExactTextPosition_def hintVerified_def)

theorem hint_verification_witness:
  "(0::rat) \<le> 12 \<and> (12::rat) < 15 \<and> (15::rat) \<le> of_nat (length ''I think you you should go.'')
   \<and> substring ''I think you you should go.'' 12 15 = ''you''
   \<and> findExactTextPosition ''I think you you should go.'' ''you'' 12 15 (Some ''think'') (Some ''should'')
       = Some \<lparr>start = 12, end' = 15, found = True\<rparr>"
proof -
  have h: "substring ''I think you you should go.'' 12 15 = ''you''"
    by code_simp
  have "findExactTextPosition ''I think you you should go.'' ''you'' 12 15 (Some ''think'') (Some ''should'')
       = Some \<lparr>start = 12, end' = 15, found = True\<rparr>"
    by (rule hint_verification [OF _ _ _ h]) simp_all
  with h show ?thesis by simp
qed

section \<open>Scenario B: two occurrences and context\<close>





section \<open>TextDiffer: a difference at index 0\<close>

text \<open>
  C4. The claim: \<open>changeStart\<close> is the index of the first character where the two
  texts differ. When that index is 0 the loop leaves \<open>changeStart = 0\<close>, which the
  code then takes for "no difference found" and replaces by \<open>minLength\<close>: for
  \<open>cat\<close> and \<open>bat\<close> the computed \<open>changeStart\<close> is 3, not 0, and the prefixes of
  length 3 differ.
\<close>

theorem changeStart_first_character:
  "computeChangeStart ''cat'' ''bat'' = 3 \<and> take 3 ''cat'' \<noteq> take 3 ''bat''
   \<and> ''cat'' ! 0 \<noteq> ''bat'' ! 0"
  by code_simp

section \<open>Change detection\<close>

text \<open>
  C8. A section of the current partition is marked changed exactly when no section of
  the previous partition has the same hash. The hash is \<open>simpleHash\<close> of the trimmed
  content, so a section whose trimmed content also occurred in the previous partition
  is not marked changed.
\<close>

theorem detectChangedSections_iff:
  "(s \<in> set (detectChangedSections currentSections previousSections) \<longleftrightarrow>
      s \<in> set currentSections \<and> (\<forall>p \<in> set previousSections. hash p \<noteq> hash s))
   \<and> (s \<in> set currentSections \<longrightarrow> hashedSection s \<longrightarrow>
        (\<exists>p \<in> set previousSections. hashedSection p \<and> trim (content p) = trim (content s)) \<longrightarrow>
        s \<notin> set (detectChangedSections currentSections previousSections))"
proof -
  have iff: "s \<in> set (detectChangedSections currentSections previousSections) \<longleftrightarrow>
      s \<in> set currentSections \<and> (\<forall>p \<in> set previousSections. hash p \<noteq> hash s)"
    by (simp add: detectChangedSections_def image_iff) metis
  have r: "s \<notin> set (detectChangedSections currentSections previousSections)"
    if "hashedSection s" and "p \<in> set previousSections" and "hashedSection p"
      and "trim (content p) = trim (content s)" for p
  proof -
    from that have "hash p = hash s" by (simp add: hashedSection_def)
    with that(2) iff show ?thesis by metis
  qed
  show ?thesis
  proof (intro conjI impI)
    show "s \<in> set (detectChangedSections currentSections previousSections) \<longleftrightarrow>
      s \<in> set currentSections \<and> (\<forall>p \<in> set previousSections. hash p \<noteq> hash s)"
      by (rule iff)
  next
    assume "hashedSection s"
      and "\<exists>p \<in> set previousSections. hashedSection p \<and> trim (content p) = trim (content s)"
    then obtain p where "p \<in> set previousSections" and "hashedSection p"
      and "trim (content p) = trim (content s)" by (elim bexE conjE)
    with \<open>hashedSection s\<close> show "s \<notin> set (detectChangedSections currentSections previousSections)"
      by (rule r)
  qed
qed

lemma simpleHash_para_one: "simpleHash ''Para one.'' = ''6qj3a0''"
  by (simp add: simpleHash_def hashStep_def toString36.simps digit36_def)

theorem detectChangedSections_witness:
  "sectionA \<in> set [sectionA, sectionB] \<and> hashedSection sectionA
   \<and> (\<exists>p \<in> set [sectionA_prev]. hashedSection p \<and> trim (content p) = trim (content sectionA))
   \<and> sectionA \<notin> set (detectChangedSections [sectionA, sectionB] [sectionA_prev])
   \<and> sectionB \<in> set (detectChangedSections [sectionA, sectionB] [sectionA_prev])"
proof -
  have t1: "trim (content sectionA) = ''Para one.''"
    by (simp add: sectionA_def trim_def isWhiteSpace_def)
  have t2: "trim (content sectionA_prev) = ''Para one.''"
    by (simp add: sectionA_prev_def trim_def isWhiteSpace_def)
  have a: "hashedSection sectionA"
    unfolding hashedSection_def t1 simpleHash_para_one by (simp add: sectionA_def)
  have b: "hashedSection sectionA_prev"
    unfolding hashedSection_def t2 simpleHash_para_one by (simp add: sectionA_prev_def)
  have c: "\<exists>p \<in> set [sectionA_prev]. hashedSection p \<and> trim (content p) = trim (content sectionA)"
    using b t1 t2 by simp
  have m: "sectionA \<in> set [sectionA, sectionB]" by simp
  have d: "sectionA \<notin> set (detectChangedSections [sectionA, sectionB] [sectionA_prev])"
    by (rule detectChangedSections_iff [THEN conjunct2, rule_format, OF m a c])
  have f: "sectionB \<in> set [sectionA, sectionB]
           \<and> (\<forall>p \<in> set [sectionA_prev]. hash p \<noteq> hash sectionB)"
    by (simp add: sectionA_prev_def sectionB_def)
  have e: "sectionB \<in> set (detectChangedSections [sectionA, sectionB] [sectionA_prev])"
    by (rule detectChangedSections_iff [THEN conjunct1, THEN iffD2, OF f])
  from m a c d e show ?thesis by blast
qed

section \<open>Remote failure on the automatic path\<close>

text \<open>
  C9. The claim: a failure of the remote analysis is shown to the user only when the
  analysis was started by the manual action, and is silent on the automatic path. The
  2-second timer runs \<open>analyzeOpenAIDelayed\<close>, which calls \<open>analyzeTextManual\<close>,
  whose \<^verbatim>\<open>catch\<close> shows the toast: on a non-2xx response or a network error the
  automatic path shows \<open>Analysis failed\<close>, as the manual path does.
\<close>

theorem automatic_analysis_failure_shown:
  "map_option toasts (typingTimeoutFired editor0 ''The quick brown fox jumps.'' (Response False InvalidJson))
     = Some [''Analysis failed'']
   \<and> map_option toasts (typingTimeoutFired editor0 ''The quick brown fox jumps.'' NetworkError)
     = Some [''Analysis failed'']
   \<and> map_option toasts (analyzeButtonClicked editor0 NetworkError) = Some [''Analysis failed'']"
  by code_simp

section \<open>Reposition after an insertion\<close>

subsection \<open>Substrings of the text before and after the insertion point\<close>

lemma toIndex_in_range: "0 \<le> x \<Longrightarrow> x \<le> of_nat len \<Longrightarrow> toIndex len x = nat \<lfloor>x\<rfloor>"
  unfolding toIndex_def by (simp add: min_def le_nat_iff floor_le_iff) linarith

lemma substring_in_range:
  assumes "0 \<le> a" "a \<le> b" "b \<le> of_nat (length s)"
  shows "substring s a b = take (nat \<lfloor>b\<rfloor> - nat \<lfloor>a\<rfloor>) (drop (nat \<lfloor>a\<rfloor>) s)"
proof -
  have "toIndex (length s) a = nat \<lfloor>a\<rfloor>" using assms by (intro toIndex_in_range) auto
  moreover have "toIndex (length s) b = nat \<lfloor>b\<rfloor>" using assms by (intro toIndex_in_range) auto
  moreover have "nat \<lfloor>a\<rfloor> \<le> nat \<lfloor>b\<rfloor>" using assms by (simp add: floor_mono nat_mono)
  ultimately show ?thesis by (simp add: substring_def Let_def min_def max_def)
qed

lemma floor_bounds:
  assumes "0 \<le> a" "a \<le> b" "b \<le> of_nat n"
  shows "nat \<lfloor>a\<rfloor> \<le> nat \<lfloor>b\<rfloor>" "nat \<lfloor>b\<rfloor> \<le> n"
proof -
  show "nat \<lfloor>a\<rfloor> \<le> nat \<lfloor>b\<rfloor>" using assms by (simp add: floor_mono nat_mono)
  have "\<lfloor>b\<rfloor> \<le> int n" using assms(3) by (simp add: floor_le_iff) 
  then show "nat \<lfloor>b\<rfloor> \<le> n" by simp
qed

lemma drop_after_insert:
  "p \<le> i \<Longrightarrow> p \<le> length old \<Longrightarrow> drop (i + length ins) (take p old @ ins @ drop p old) = drop i old"
  by (simp add: min_absorb2)

lemma take_drop_before_insert:
  assumes "i \<le> j" "j \<le> p" "p \<le> length old"
  shows "take (j - i) (drop i (take p old @ rest)) = take (j - i) (drop i old)"
proof -
  have "j - i \<le> p - i" using assms by arith
  then have "take (j - i) (drop i (take p old @ rest)) = take (j - i) (drop i (take p old))"
    using assms by simp
  also have "\<dots> = take (j - i) (take (p - i) (drop i old))"
    by (simp add: drop_take)
  also have "\<dots> = take (j - i) (drop i old)"
    using \<open>j - i \<le> p - i\<close> by (simp add: min_absorb1)
  finally show ?thesis .
qed

lemma substring_after_insert:
  assumes p: "p \<le> length old" and a: "of_nat p \<le> a" and ab: "a \<le> b"
    and b: "b \<le> of_nat (length old)"
  shows "substring (take p old @ ins @ drop p old) (a + of_nat (length ins)) (b + of_nat (length ins))
           = substring old a b"
proof -
  let ?k = "length ins"
  let ?new = "take p old @ ins @ drop p old"
  have a0: "0 \<le> a" using a by (meson of_nat_0_le_iff order_trans)
  have len: "length ?new = length old + ?k" using p by simp
  have fa: "nat \<lfloor>a + of_nat ?k\<rfloor> = nat \<lfloor>a\<rfloor> + ?k"
    using a0 by (simp add: nat_add_distrib)
  have fb: "nat \<lfloor>b + of_nat ?k\<rfloor> = nat \<lfloor>b\<rfloor> + ?k"
    using a0 ab by (simp add: nat_add_distrib)
  have pa: "p \<le> nat \<lfloor>a\<rfloor>" using a by (simp add: le_nat_iff le_floor_iff)
  have b': "b + of_nat ?k \<le> of_nat (length ?new)"
    unfolding len using b by simp
  have "substring ?new (a + of_nat ?k) (b + of_nat ?k)
        = take (nat \<lfloor>b + of_nat ?k\<rfloor> - nat \<lfloor>a + of_nat ?k\<rfloor>)
            (drop (nat \<lfloor>a + of_nat ?k\<rfloor>) ?new)"
    by (rule substring_in_range) (use a0 ab b' in auto)
  also have "\<dots> = take (nat \<lfloor>b\<rfloor> - nat \<lfloor>a\<rfloor>) (drop (nat \<lfloor>a\<rfloor> + ?k) ?new)"
    unfolding fa fb by simp
  also have "drop (nat \<lfloor>a\<rfloor> + ?k) ?new = drop (nat \<lfloor>a\<rfloor>) old"
    by (rule drop_after_insert [OF pa p])
  finally show ?thesis unfolding substring_in_range [OF a0 ab b] .
qed

lemma substring_before_insert:
  assumes p: "p \<le> length old" and a0: "0 \<le> a" and ab: "a \<le> b" and b: "b \<le> of_nat p"
  shows "substring (take p old @ ins @ drop p old) a b = substring old a b"
proof -
  let ?new = "take p old @ ins @ drop p old"
  have b_old: "b \<le> of_nat (length old)" using b p
    by (meson of_nat_le_iff order_trans)
  have "length old \<le> length ?new" using p by simp
  then have b_new: "b \<le> of_nat (length ?new)" using b_old
    by (meson of_nat_le_iff order_trans)
  have bounds: "nat \<lfloor>a\<rfloor> \<le> nat \<lfloor>b\<rfloor>" "nat \<lfloor>b\<rfloor> \<le> p"
    using floor_bounds [OF a0 ab b] by auto
  show ?thesis
    unfolding substring_in_range [OF a0 ab b_old] substring_in_range [OF a0 ab b_new]
    by (rule take_drop_before_insert [OF bounds p])
qed


lemma those_map_Some:
  "(\<And>x. x \<in> set xs \<Longrightarrow> f x = Some (g x)) \<Longrightarrow> those (map f xs) = Some (map g xs)"
  by (induction xs) simp_all

lemma map_filter_id_Some: "List.map_filter id (map Some xs) = xs"
  by (induction xs) (simp_all add: List.map_filter_simps)

lemma set_map_filter: "set (List.map_filter f xs) = {y. \<exists>x \<in> set xs. f x = Some y}"
  by (induction xs) (auto simp: List.map_filter_simps split: option.splits)

lemma reverify_valid:
  assumes "spanValid newText s"
  shows "reverifySuggestion newText s = Some (Some s)"
proof -
  have "hintVerified newText (original s) (start (position s)) (end' (position s))"
    using assms by (simp add: spanValid_def hintVerified_def)
  then have "findExactTextPosition newText (original s) (start (position s)) (end' (position s))
               (contextBefore s) (contextAfter s)
             = Some \<lparr>start = start (position s), end' = end' (position s), found = True\<rparr>"
    by (simp add: findExactTextPosition_def)
  then show ?thesis by (simp add: reverifySuggestion_def)
qed

lemma shiftSuggestion_insert:
  assumes "p \<le> length oldText"
  shows "shiftSuggestion (of_nat p) (lengthDifference oldText (take p oldText @ ins @ drop p oldText)) s
         = insertShift p (length ins) s"
proof -
  have "lengthDifference oldText (take p oldText @ ins @ drop p oldText) = int (length ins)"
    using assms by (simp add: lengthDifference_def)
  then show ?thesis by (simp add: shiftSuggestion_def insertShift_def not_less)
qed

lemma insertShift_valid:
  assumes p: "p \<le> length oldText" and v: "spanValid oldText s"
    and sh: "insertShift p (length ins) s = Some s'"
  shows "spanValid (take p oldText @ ins @ drop p oldText) s'"
proof (cases "start (position s) \<ge> of_nat p")
  case True
  let ?a = "start (position s)" and ?b = "end' (position s)"
  from True sh have s': "s' = s\<lparr>position := \<lparr>start = ?a + of_nat (length ins),
                                             end' = ?b + of_nat (length ins)\<rparr>\<rparr>"
    by (simp add: insertShift_def)
  from v have ab: "?a \<le> ?b" and b: "?b \<le> of_nat (length oldText)"
    and sub: "substring oldText ?a ?b = original s"
    by (simp_all add: spanValid_def)
  have "substring (take p oldText @ ins @ drop p oldText) (?a + of_nat (length ins))
          (?b + of_nat (length ins)) = original s"
    using substring_after_insert [OF p True ab b] sub by simp
  moreover have "?b + of_nat (length ins) \<le> of_nat (length (take p oldText @ ins @ drop p oldText))"
    using b p by simp
  moreover have "0 \<le> ?a + of_nat (length ins)" using v by (simp add: spanValid_def)
  moreover have "?a + of_nat (length ins) < ?b + of_nat (length ins)"
    using v by (simp add: spanValid_def)
  ultimately show ?thesis unfolding s' spanValid_def by simp
next
  case False
  let ?a = "start (position s)" and ?b = "end' (position s)"
  from False sh have s': "s' = s" and bp: "?b \<le> of_nat p"
    by (simp_all add: insertShift_def split: if_splits)
  from v have a0: "0 \<le> ?a" and ab: "?a \<le> ?b" and lt: "?a < ?b"
    and sub: "substring oldText ?a ?b = original s"
    by (simp_all add: spanValid_def)
  have "substring (take p oldText @ ins @ drop p oldText) ?a ?b = original s"
    using substring_before_insert [OF p a0 ab bp] sub by simp
  moreover have "?b \<le> of_nat (length (take p oldText @ ins @ drop p oldText))"
  proof -
    have "(of_nat p :: rat) \<le> of_nat (length (take p oldText @ ins @ drop p oldText))"
      using p by (simp only: of_nat_le_iff) simp
    with bp show ?thesis by (rule order_trans)
  qed
  ultimately show ?thesis unfolding s' spanValid_def using a0 lt by simp
qed

text \<open>
  C3. Let every suggestion be valid against the old text, and let the new text be the
  old one with \<open>ins\<close> inserted at offset \<open>p\<close>. Then \<open>updateSuggestionPositions\<close>,
  called with \<open>changeStart = p\<close>, returns, and the new suggestion list is the old one
  where every suggestion with \<open>start \<ge> p\<close> is shifted by exactly \<open>length ins\<close>,
  every suggestion with \<open>end \<le> p\<close> is unchanged, and every suggestion with
  \<open>start < p < end\<close> is dropped (\<open>insertShift\<close>): the shifted or unchanged hint
  verifies in the new text, so the locator changes nothing.
\<close>

theorem reposition_insert:
  assumes p: "p \<le> length oldText"
    and new: "newText = take p oldText @ ins @ drop p oldText"
    and valid: "\<forall>s \<in> set (suggestions st). spanValid oldText s"
  shows "\<exists>st'. updateSuggestionPositions st oldText newText (of_nat p) = Some st'
           \<and> suggestions st' = List.map_filter (insertShift p (length ins)) (suggestions st)"
proof -
  let ?shifted = "List.map_filter (insertShift p (length ins)) (suggestions st)"
  have sh: "List.map_filter (shiftSuggestion (of_nat p) (lengthDifference oldText newText))
              (suggestions st) = ?shifted"
    unfolding new using shiftSuggestion_insert [OF p] by (simp add: List.map_filter_def)
  have "reverifySuggestion newText s' = Some (Some s')" if "s' \<in> set ?shifted" for s'
  proof -
    from that obtain s where "s \<in> set (suggestions st)" and "insertShift p (length ins) s = Some s'"
      by (auto simp: set_map_filter)
    with valid p have "spanValid newText s'" unfolding new by (blast intro: insertShift_valid)
    then show ?thesis by (rule reverify_valid)
  qed
  then have "those (map (reverifySuggestion newText) ?shifted) = Some (map Some ?shifted)"
    by (rule those_map_Some)
  then have upd: "updatedSuggestions (suggestions st) oldText newText (of_nat p) = Some ?shifted"
    by (simp add: updatedSuggestions_def sh map_filter_id_Some)
  show ?thesis
  proof (cases "suggestions st = []")
    case True
    then show ?thesis by (simp add: updateSuggestionPositions_def List.map_filter_simps)
  next
    case False
    then show ?thesis using upd by (simp add: updateSuggestionPositions_def)
  qed
qed


theorem reposition_insert_witness:
  "(4::nat) \<le> length ''the cat sat''
   \<and> spanValid ''the cat sat'' (mkSuggestion ''typo-1'' 0 3 ''the'' ''The'')
   \<and> spanValid ''the cat sat'' (mkSuggestion ''typo-2'' 4 7 ''cat'' ''cart'')
   \<and> spanValid ''the cat sat'' (mkSuggestion ''openai-3'' 2 6 ''e ca'' ''e-ca'')
   \<and> (\<exists>st'. updateSuggestionPositions (editorWith ''the cat sat''
            [mkSuggestion ''typo-1'' 0 3 ''the'' ''The'', mkSuggestion ''typo-2'' 4 7 ''cat'' ''cart'',
             mkSuggestion ''openai-3'' 2 6 ''e ca'' ''e-ca''])
            ''the cat sat'' ''the big cat sat'' 4 = Some st'
          \<and> suggestions st' = [mkSuggestion ''typo-1'' 0 3 ''the'' ''The'',
                                mkSuggestion ''typo-2'' 8 11 ''cat'' ''cart''])"
proof -
  let ?st = "editorWith ''the cat sat''
            [mkSuggestion ''typo-1'' 0 3 ''the'' ''The'', mkSuggestion ''typo-2'' 4 7 ''cat'' ''cart'',
             mkSuggestion ''openai-3'' 2 6 ''e ca'' ''e-ca'']"
  have p: "(4::nat) \<le> length ''the cat sat''" by simp
  have new: "''the big cat sat'' = take 4 ''the cat sat'' @ ''big '' @ drop 4 ''the cat sat''"
    by simp
  have v: "\<forall>s \<in> set (suggestions ?st). spanValid ''the cat sat'' s"
    by (simp add: editorWith_def mkSuggestion_def spanValid_def substring_def toIndex_def)
  have sh: "List.map_filter (insertShift 4 (length ''big '')) (suggestions ?st)
            = [mkSuggestion ''typo-1'' 0 3 ''the'' ''The'', mkSuggestion ''typo-2'' 8 11 ''cat'' ''cart'']"
    by (simp add: editorWith_def mkSuggestion_def insertShift_def List.map_filter_simps)
  have v': "spanValid ''the cat sat'' (mkSuggestion ''typo-1'' 0 3 ''the'' ''The'')
            \<and> spanValid ''the cat sat'' (mkSuggestion ''typo-2'' 4 7 ''cat'' ''cart'')
            \<and> spanValid ''the cat sat'' (mkSuggestion ''openai-3'' 2 6 ''e ca'' ''e-ca'')"
    using v by (simp add: editorWith_def)
  from reposition_insert [OF p new v] sh p v' show ?thesis by simp
qed

section \<open>Merge priority\<close>

subsection \<open>The splice loop removes exactly the replaced elements\<close>











subsection \<open>A dictionary suggestion against a semantic one\<close>


text \<open>
  A second way for a dictionary suggestion to enter next to an overlapping semantic one:
  it also overlaps a dictionary suggestion that it replaces, and the code adds a
  suggestion whenever it has replaced something.
\<close>

lemma merge_overlapping_dictionary_enters:
  "mergeSuggestionsIntelligently [mkSuggestion ''openai-1'' 0 3 ''Teh'' ''The'']
     [mkSuggestion ''typo-2'' 4 7 ''cat'' ''cart'', mkSuggestion ''typo-3'' 2 5 ''h c'' ''hc'']
     ''Teh cat''
   = [mkSuggestion ''openai-1'' 0 3 ''Teh'' ''The'', mkSuggestion ''typo-3'' 2 5 ''h c'' ''hc'']"
  by code_simp



section \<open>The locator does not find the text\<close>








section \<open>What the locator returns\<close>

subsection \<open>indexOf\<close>

lemma find_SomeD: "find P xs = Some x \<Longrightarrow> P x \<and> x \<in> set xs"
  by (induction xs) (auto split: if_splits)

lemma indexOf_found:
  assumes "indexOf s t k = r" and "r \<noteq> - 1"
  shows "0 \<le> r \<and> take (length t) (drop (nat r) s) = t \<and> nat r + length t \<le> length s"
proof -
  let ?P = "\<lambda>i. take (length t) (drop i s) = t"
  let ?xs = "[min (nat k) (length s) ..< Suc (length s)]"
  from assms obtain i where f: "find ?P ?xs = Some i" and r: "r = int i"
    by (auto simp: indexOf_def Let_def split: option.splits)
  from find_SomeD [OF f] have P: "?P i" and mem: "i \<in> set ?xs" by blast+
  from mem have "i \<le> length s" by (simp del: upt_Suc)
  have "length (take (length t) (drop i s)) = length t" using P by simp
  then have "length t \<le> length s - i" by simp
  with \<open>i \<le> length s\<close> P r show ?thesis by simp
qed





subsection \<open>The occurrence loops\<close>










subsection \<open>The fuzzy window\<close>



lemma fuzzyWindowEnd_le: "fuzzyWindowEnd text h \<le> of_nat (length text)"
  by (simp add: fuzzyWindowEnd_def Let_def)









subsection \<open>The four ways to find a position\<close>



section \<open>The returned span stays inside the text\<close>



section \<open>The span invariant\<close>

subsection \<open>Survivors of a reposition\<close>












section \<open>Termination of the locator\<close>

text \<open>
  For an \<open>original\<close> that is not empty both occurrence loops end, so the locator
  returns. For the empty \<open>original\<close> the loops never reach \<open>-1\<close>: unless the hint
  verifies, the locator has no result.
\<close>

subsection \<open>When the occurrence loops end\<close>

lemma indexOf_from:
  assumes "indexOf s t k = r" and "r \<noteq> - 1" and "0 \<le> k" and "nat k \<le> length s"
  shows "k \<le> r"
proof -
  let ?P = "\<lambda>i. take (length t) (drop i s) = t"
  let ?xs = "[min (nat k) (length s) ..< Suc (length s)]"
  from assms(1,2) obtain i where f: "find ?P ?xs = Some i" and r: "r = int i"
    by (auto simp: indexOf_def Let_def split: option.splits)
  from find_SomeD [OF f] have "i \<in> set ?xs" by blast
  then have "min (nat k) (length s) \<le> i" by (simp del: upt_Suc)
  with assms(3,4) r show ?thesis by (simp add: min_absorb1)
qed

lemma next_index:
  assumes t: "t \<noteq> []" and idx: "0 \<le> idx" "nat idx + length t \<le> length tx"
    and j: "indexOf tx t (idx + 1) = j" and "j \<noteq> - 1"
  shows "0 \<le> j \<and> nat j + length t \<le> length tx \<and> idx < j"
proof -
  from indexOf_found [OF j \<open>j \<noteq> - 1\<close>] have a: "0 \<le> j" "nat j + length t \<le> length tx"
    by simp_all
  have "0 < length t" using t by simp
  with idx have "nat (idx + 1) \<le> length tx" by linarith
  from indexOf_from [OF j \<open>j \<noteq> - 1\<close> _ this] idx(1) have "idx + 1 \<le> j" by simp
  with a show ?thesis by simp
qed

lemma foundPositions_loop_returns:
  assumes "t \<noteq> []" and "idx = - 1 \<or> (0 \<le> idx \<and> nat idx + length t \<le> length tx)"
  shows "\<exists>res. foundPositions_loop tx t idx acc = Some res"
  using assms(2)
proof (induction "length tx - nat idx" arbitrary: idx acc rule: less_induct)
  case less
  show ?case
  proof (cases "idx = - 1")
    case True
    then show ?thesis by (simp add: foundPositions_loop.simps)
  next
    case False
    with less.prems have idx: "0 \<le> idx" "nat idx + length t \<le> length tx" by simp_all
    let ?j = "indexOf tx t (idx + 1)"
    let ?acc = "acc @ [\<lparr>start = of_int idx, end' = of_int idx + of_nat (length t)\<rparr>]"
    have "\<exists>res. foundPositions_loop tx t ?j ?acc = Some res"
    proof (cases "?j = - 1")
      case True
      then show ?thesis by (simp add: foundPositions_loop.simps)
    next
      case nj: False
      from next_index [OF assms(1) idx refl nj]
      have j: "0 \<le> ?j" "nat ?j + length t \<le> length tx" "idx < ?j" by simp_all
      have "0 < length t" using assms(1) by simp
      with j idx have "length tx - nat ?j < length tx - nat idx" by linarith
      then show ?thesis using j by (intro less.hyps) simp_all
    qed
    then show ?thesis using False by (subst foundPositions_loop.simps) simp
  qed
qed

lemma findWithContext_loop_returns:
  assumes "t \<noteq> []" and "idx = - 1 \<or> (0 \<le> idx \<and> nat idx + length t \<le> length tx)"
  shows "\<exists>res. findWithContext_loop tx t cb ca idx acc = Some res"
  using assms(2)
proof (induction "length tx - nat idx" arbitrary: idx acc rule: less_induct)
  case less
  show ?case
  proof (cases "idx = - 1")
    case True
    then show ?thesis by (simp add: findWithContext_loop.simps)
  next
    case False
    with less.prems have idx: "0 \<le> idx" "nat idx + length t \<le> length tx" by simp_all
    let ?j = "indexOf tx t (idx + 1)"
    let ?acc = "acc @ contextMatch tx t cb ca idx"
    have "\<exists>res. findWithContext_loop tx t cb ca ?j ?acc = Some res"
    proof (cases "?j = - 1")
      case True
      then show ?thesis by (simp add: findWithContext_loop.simps)
    next
      case nj: False
      from next_index [OF assms(1) idx refl nj]
      have j: "0 \<le> ?j" "nat ?j + length t \<le> length tx" "idx < ?j" by simp_all
      have "0 < length t" using assms(1) by simp
      with j idx have "length tx - nat ?j < length tx - nat idx" by linarith
      then show ?thesis using j by (intro less.hyps) simp_all
    qed
    then show ?thesis using False by (subst findWithContext_loop.simps) simp
  qed
qed

lemma first_index:
  "indexOf tx t 0 = - 1 \<or> (0 \<le> indexOf tx t 0 \<and> nat (indexOf tx t 0) + length t \<le> length tx)"
  using indexOf_found [OF refl, of tx t 0] by blast

lemma locator_returns:
  assumes "searchText \<noteq> []"
  shows "\<exists>r. findExactTextPosition tx searchText startPos endPos cb ca = Some r"
proof -
  obtain ms where ctx: "findWithContext tx searchText cb ca = Some ms"
    using findWithContext_loop_returns [OF assms first_index]
    by (fastforce simp: findWithContext_def)
  obtain ps where fp: "foundPositions_loop tx searchText (indexOf tx searchText 0) [] = Some ps"
    using foundPositions_loop_returns [OF assms first_index] by blast
  show ?thesis
    unfolding findExactTextPosition_def
    by (simp add: ctx fp Let_def split: list.splits)
qed


subsection \<open>The empty original\<close>

lemma indexOf_empty: "indexOf tx [] k = int (min (nat k) (length tx))"
proof -
  have "[min (nat k) (length tx) ..< Suc (length tx)]
        = min (nat k) (length tx) # [Suc (min (nat k) (length tx)) ..< Suc (length tx)]"
    by (rule upt_conv_Cons) simp
  then show ?thesis by (simp add: indexOf_def Let_def del: upt_Suc)
qed

lemma foundPositions_loop_empty:
  assumes "foundPositions_loop tx t idx acc = Some res"
  shows "t = [] \<longrightarrow> idx = - 1"
  using assms
proof (induction tx t idx acc res rule: foundPositions_loop.raw_induct)
  case (1 loop tx t idx acc res)
  show ?case
  proof (intro impI)
    assume t: "t = []"
    show "idx = - 1"
    proof (rule ccontr)
      assume False: "idx \<noteq> - 1"
      with "1.hyps"
      have call: "loop tx t (indexOf tx t (idx + 1))
                    (acc @ [\<lparr>start = of_int idx, end' = of_int idx + of_nat (length t)\<rparr>]) = Some res"
        by simp
      from "1.prems" False
      have rc: "foundPositions_loop tx t (indexOf tx t (idx + 1))
                    (acc @ [\<lparr>start = of_int idx, end' = of_int idx + of_nat (length t)\<rparr>]) = Some res"
        by (subst (asm) foundPositions_loop.simps) simp
      from "1.IH" [OF call rc] t have "indexOf tx [] (idx + 1) = - 1" by simp
      then show False by (simp add: indexOf_empty)
    qed
  qed
qed (rule assms)

lemma findWithContext_loop_empty:
  assumes "findWithContext_loop tx t cb ca idx acc = Some res"
  shows "t = [] \<longrightarrow> idx = - 1"
  using assms
proof (induction tx t cb ca idx acc res rule: findWithContext_loop.raw_induct)
  case (1 loop tx t cb ca idx acc res)
  show ?case
  proof (intro impI)
    assume t: "t = []"
    show "idx = - 1"
    proof (rule ccontr)
      assume False: "idx \<noteq> - 1"
      with "1.hyps"
      have call: "loop tx t cb ca (indexOf tx t (idx + 1)) (acc @ contextMatch tx t cb ca idx)
                  = Some res"
        by simp
      from "1.prems" False
      have rc: "findWithContext_loop tx t cb ca (indexOf tx t (idx + 1))
                  (acc @ contextMatch tx t cb ca idx) = Some res"
        by (subst (asm) findWithContext_loop.simps) simp
      from "1.IH" [OF call rc] t have "indexOf tx [] (idx + 1) = - 1" by simp
      then show False by (simp add: indexOf_empty)
    qed
  qed
qed (rule assms)

lemma empty_original_never_located:
  assumes "\<not> hintVerified tx [] startPos endPos"
  shows "findExactTextPosition tx [] startPos endPos cb ca = None"
proof -
  have i0: "indexOf tx [] 0 \<noteq> - 1" by (simp add: indexOf_empty)
  have fp: "foundPositions_loop tx [] (indexOf tx [] 0) [] = None"
  proof (cases "foundPositions_loop tx [] (indexOf tx [] 0) []")
    case (Some res)
    from foundPositions_loop_empty [OF Some] i0 show ?thesis by simp
  qed simp
  have ctx: "findWithContext tx [] cb ca = None"
  proof (cases "findWithContext_loop tx [] cb ca (indexOf tx [] 0) []")
    case (Some res)
    from findWithContext_loop_empty [OF Some] i0 show ?thesis by simp
  qed (simp add: findWithContext_def)
  show ?thesis
    unfolding findExactTextPosition_def using assms by (simp add: fp ctx)
qed

end
